theory Spec2Isabelle
  imports Main
begin

section \<open>The stream registry of server.js\<close>

text \<open>
  \<^verbatim>\<open>const urlCache = new Map();\<close> maps a stream id to an object
  \<^verbatim>\<open>{ url, expires }\<close>. A JavaScript \<open>Map\<close> keeps its keys in insertion order and
  the cleanup loop of \<^verbatim>\<open>/search\<close> walks it in that order, so the map is an association
  list. Times are the millisecond counts of \<^verbatim>\<open>Date.now()\<close>, natural numbers far below
  \<open>2^53\<close>, where JavaScript's arithmetic on them is exact.
\<close>

record entry =
  url :: string
  expires :: nat

type_synonym cache = "(string \<times> entry) list"

text \<open>
  \<^verbatim>\<open>Map.prototype.set\<close>: the value of a key already present is replaced where it
  stands, a new key goes to the end. \<^verbatim>\<open>Map.prototype.get\<close> is \<^const>\<open>map_of\<close>
  (\<open>None\<close> for JavaScript's \<open>undefined\<close>).
\<close>

primrec Map_set :: "'k \<Rightarrow> 'v \<Rightarrow> ('k \<times> 'v) list \<Rightarrow> ('k \<times> 'v) list" where
  "Map_set k v [] = [(k, v)]"
| "Map_set k v (p # ps) = (if fst p = k then (k, v) # ps else p # Map_set k v ps)"

text \<open>
  Every call of \<^verbatim>\<open>Date.now()\<close> reads the clock anew. A clock gives the value of
  the \<open>n\<close>-th reading of the process; each piece of code below takes the number of the
  first reading it makes.
\<close>

type_synonym clock = "nat \<Rightarrow> nat"

definition const_clock :: "nat \<Rightarrow> clock" where
  "const_clock t n = t"

subsection \<open>Stream ids\<close>

text \<open>
  \<^verbatim>\<open>Date.now().toString(36)\<close>: the digits of a non-negative integer in base 36,
  most significant first, with the digits \<open>0-9a-z\<close>.
\<close>

definition digits36 :: string where
  "digits36 = ''0123456789abcdefghijklmnopqrstuvwxyz''"

fun toString36 :: "nat \<Rightarrow> string" where
  "toString36 n =
     (if n < 36 then [digits36 ! n]
      else toString36 (n div 36) @ [digits36 ! (n mod 36)])"

declare toString36.simps [simp del]

text \<open>
  \<^verbatim>\<open>String.prototype.substring(start, end)\<close>: both indices are clamped to the
  length and swapped when \<open>start > end\<close>.
\<close>

definition substring :: "nat \<Rightarrow> nat \<Rightarrow> string \<Rightarrow> string" where
  "substring start end s = take (max start end - min start end) (drop (min start end) s)"

text \<open>
  \<^verbatim>\<open>Date.now().toString(36) + Math.random().toString(36).substring(2, 8)\<close>
  (lines 73 and 173). The text \<open>rnd\<close> is what \<^verbatim>\<open>Math.random().toString(36)\<close>
  returned, \<open>0.\<close> followed by the base-36 digits of the fraction; it is an input of the
  model, as the generator's state is not the program's.
\<close>

definition streamId_of :: "nat \<Rightarrow> string \<Rightarrow> string" where
  "streamId_of now rnd = toString36 now @ substring 2 8 rnd"

subsection \<open>Registration and cleanup\<close>

text \<open>\<^verbatim>\<open>audioUrl.split('\n')[0]\<close>: the text before the first line feed.\<close>

definition split_first :: "string \<Rightarrow> string" where
  "split_first s = takeWhile (\<lambda>c. c \<noteq> CHR 0x0A) s"

text \<open>
  Lines 73-77 of \<^verbatim>\<open>/search\<close> and lines 173-177 of \<^verbatim>\<open>/play/:videoId\<close> are the same
  code: generate the id (first clock reading), then store the first line of the extractor's
  output with an expiry one hour after the second clock reading.
\<close>

definition register :: "clock \<Rightarrow> nat \<Rightarrow> string \<Rightarrow> string \<Rightarrow> cache \<Rightarrow> string \<times> cache" where
  "register Date_now n rnd audioUrl urlCache =
     (let streamId = streamId_of (Date_now n) rnd
      in (streamId,
          Map_set streamId
            \<lparr>url = split_first audioUrl, expires = Date_now (Suc n) + 3600000\<rparr>
            urlCache))"

text \<open>
  The cleanup loop of \<^verbatim>\<open>/search\<close> (lines 80-84):
  \<^verbatim>\<open>for (const [key, value] of urlCache) if (value.expires < Date.now()) urlCache.delete(key);\<close>
  Deleting the entry being visited does not disturb the iteration, and each iteration
  reads the clock once.
\<close>

fun cleanup :: "clock \<Rightarrow> nat \<Rightarrow> cache \<Rightarrow> cache" where
  "cleanup Date_now n [] = []"
| "cleanup Date_now n ((key, value) # rest) =
     (if expires value < Date_now n then cleanup Date_now (Suc n) rest
      else (key, value) # cleanup Date_now (Suc n) rest)"

text \<open>
  What \<^verbatim>\<open>/search\<close> does to the registry from line 68 on: an empty \<open>audioUrl\<close> throws
  (the handler's \<open>catch\<close> answers 500 and the map is untouched), otherwise the stream is
  registered and the cleanup runs. \<^verbatim>\<open>/play/:videoId\<close> registers and does nothing else
  to the registry.
\<close>

definition search_register ::
  "clock \<Rightarrow> nat \<Rightarrow> string \<Rightarrow> string \<Rightarrow> cache \<Rightarrow> string + string \<times> cache" where
  "search_register Date_now n rnd audioUrl urlCache =
     (if audioUrl = [] then Inl ''Could not extract audio URL''
      else (let (streamId, urlCache') = register Date_now n rnd audioUrl urlCache
            in Inr (streamId, cleanup Date_now (n + 2) urlCache')))"

definition play_register :: "clock \<Rightarrow> nat \<Rightarrow> string \<Rightarrow> string \<Rightarrow> cache \<Rightarrow> string \<times> cache" where
  "play_register Date_now n rnd audioUrl urlCache = register Date_now n rnd audioUrl urlCache"

text \<open>
  The lookup at the head of \<^verbatim>\<open>/proxy/:streamId\<close> (lines 227-232):
  \<^verbatim>\<open>const cached = urlCache.get(streamId); if (!cached) return 404; const audioUrl = cached.url;\<close>
  An object is always truthy, so the test fails exactly for a missing key. The clock is
  not read.
\<close>

definition resolve :: "cache \<Rightarrow> string \<Rightarrow> string option" where
  "resolve urlCache streamId =
     (case map_of urlCache streamId of None \<Rightarrow> None | Some cached \<Rightarrow> Some (url cached))"

text \<open>
  A history of the registry: the registrations that \<^verbatim>\<open>/search\<close> and
  \<^verbatim>\<open>/play/:videoId\<close> perform, one after the other, each with the random text and the
  extractor output it got. Each block of lines 73-84 (and 173-177) runs without an
  \<open>await\<close>, so the blocks of different requests do not interleave. The result is the
  ids handed out, in order, and the registry left. A registration reads the clock twice,
  the cleanup once for each entry then in the map.
\<close>

datatype call = Search string string | Play string string

fun history :: "clock \<Rightarrow> nat \<Rightarrow> call list \<Rightarrow> cache \<Rightarrow> string list \<times> cache" where
  "history Date_now n [] urlCache = ([], urlCache)"
| "history Date_now n (Play rnd audioUrl # calls) urlCache =
     (let (streamId, urlCache') = play_register Date_now n rnd audioUrl urlCache;
          (ids, urlCache'') = history Date_now (n + 2) calls urlCache'
      in (streamId # ids, urlCache''))"
| "history Date_now n (Search rnd audioUrl # calls) urlCache =
     (case search_register Date_now n rnd audioUrl urlCache of
        Inl err \<Rightarrow> history Date_now n calls urlCache
      | Inr (streamId, urlCache') \<Rightarrow>
          (let (ids, urlCache'') =
                 history Date_now
                   (n + 2 + length (snd (register Date_now n rnd audioUrl urlCache)))
                   calls urlCache'
           in (streamId # ids, urlCache'')))"

section \<open>The range proxy: \<^verbatim>\<open>GET /proxy/:streamId\<close>\<close>

subsection \<open>The objects of one exchange\<close>

text \<open>
  \<open>req\<close>: the handler reads \<^verbatim>\<open>req.params.streamId\<close> and
  \<^verbatim>\<open>req.headers.range\<close> (\<open>None\<close> when the client sent no \<open>Range\<close> header).
\<close>

record request =
  params_streamId :: string
  headers_range :: "string option"

text \<open>
  \<open>res\<close>: the status code (200 until set), the headers set so far, whether the head
  has gone out to the client, the bytes written, and whether the response was ended.
  Headers are keyed by the spelling the handler uses; it never spells one name two ways.
\<close>

record ServerResponse =
  statusCode :: nat
  headers :: "string \<rightharpoonup> string"
  headersSent :: bool
  body :: string
  finished :: bool

text \<open>
  \<open>proxyReq\<close>: the outbound request made by \<^verbatim>\<open>http.get\<close> or \<^verbatim>\<open>https.get\<close>,
  with the number of body bytes read from the upstream so far.
\<close>

datatype protocol = http | https

record ClientRequest =
  module :: protocol
  target :: string
  options_headers :: "(string \<times> string) list"
  destroyed :: bool
  bytesRead :: nat

text \<open>\<open>proxyRes\<close>: the head of the upstream's answer; Node lower-cases header names.\<close>

record IncomingMessage =
  upstream_statusCode :: nat
  upstream_headers :: "string \<rightharpoonup> string"

text \<open>
  One exchange: the response to the client, the outbound request if one was made, and
  whether the response callback has run and \<open>pipe\<close> connects the upstream to the client.
\<close>

record exchange =
  res :: ServerResponse
  proxyReq :: "ClientRequest option"
  piping :: bool

subsection \<open>What the handler calls\<close>

definition new_response :: ServerResponse where
  "new_response =
     \<lparr>statusCode = 200, headers = Map.empty, headersSent = False, body = [], finished = False\<rparr>"

definition status :: "nat \<Rightarrow> ServerResponse \<Rightarrow> ServerResponse" where
  "status code r = r\<lparr>statusCode := code\<rparr>"

definition setHeader :: "string \<Rightarrow> string \<Rightarrow> ServerResponse \<Rightarrow> ServerResponse" where
  "setHeader name v r = r\<lparr>headers := (headers r)(name \<mapsto> v)\<rparr>"

text \<open>
  \<^verbatim>\<open>res.json({ error: msg })\<close> writes \<^verbatim>\<open>JSON.stringify\<close> of the object and ends the
  response. The handler's messages are literals without a character that JSON escapes,
  so the text is the message between the fixed brackets. The headers that Express
  computes for the JSON body (type, length, entity tag) are not recorded. This is what
  the call does to a response whose client is connected; Node drops what is written to
  a response after its client has closed the connection, and that case is not recorded.
\<close>

definition json_error :: "string \<Rightarrow> ServerResponse \<Rightarrow> ServerResponse" where
  \<open>json_error msg r =
     r\<lparr>body := body r @ ''{"error":"'' @ msg @ ''"}'', headersSent := True, finished := True\<rparr>\<close>

text \<open>\<^verbatim>\<open>res.write(chunk)\<close> and \<^verbatim>\<open>res.end()\<close>, as \<^verbatim>\<open>proxyRes.pipe(res)\<close> calls them.\<close>

definition res_write :: "string \<Rightarrow> ServerResponse \<Rightarrow> ServerResponse" where
  "res_write chunk r = r\<lparr>body := body r @ chunk, headersSent := True\<rparr>"

definition end_response :: "ServerResponse \<Rightarrow> ServerResponse" where
  "end_response r = r\<lparr>headersSent := True, finished := True\<rparr>"

text \<open>
  JavaScript's truthiness of a header value: \<open>undefined\<close> and the empty string are
  falsy, every other string is truthy. \<open>or_else x d\<close> is \<^verbatim>\<open>x || d\<close>.
\<close>

fun truthy :: "string option \<Rightarrow> bool" where
  "truthy None = False"
| "truthy (Some s) = (s \<noteq> [])"

fun or_else :: "string option \<Rightarrow> string \<Rightarrow> string" where
  "or_else None d = d"
| "or_else (Some s) d = (if s = [] then d else s)"

definition startsWith :: "string \<Rightarrow> string \<Rightarrow> bool" where
  "startsWith s prefix = (take (length prefix) s = prefix)"

definition user_agent :: string where
  "user_agent = ''Mozilla/5.0 (Windows NT 10.0; Win64; x64) AppleWebKit/537.36 (KHTML, like Gecko) Chrome/120.0.0.0 Safari/537.36''"

subsection \<open>The handler and its callbacks\<close>

text \<open>
  Lines 224-284 up to the point where the handler returns. \<open>get_throws\<close> says for
  which module and url \<^verbatim>\<open>protocol.get\<close> throws at once (a text that is no url, or
  one whose scheme is not the module's); the \<open>catch\<close> of line 280 then answers 500.
  Otherwise the outbound request exists, the three callbacks are registered and nothing
  has been sent to the client yet.
\<close>

definition proxy_handler :: "(protocol \<Rightarrow> string \<Rightarrow> bool) \<Rightarrow> cache \<Rightarrow> request \<Rightarrow> exchange" where
  "proxy_handler get_throws urlCache req =
     (case resolve urlCache (params_streamId req) of
        None \<Rightarrow>
          \<lparr>res = json_error ''Stream not found or expired'' (status 404 new_response),
           proxyReq = None, piping = False\<rparr>
      | Some audioUrl \<Rightarrow>
          (let res1 = setHeader ''Content-Type'' ''audio/webm'' new_response;
               res2 = setHeader ''Accept-Ranges'' ''bytes'' res1;
               res3 = setHeader ''Cache-Control'' ''no-cache'' res2;
               protocol = (if startsWith audioUrl ''https'' then https else http)
           in if get_throws protocol audioUrl
              then \<lparr>res = json_error ''Failed to proxy stream'' (status 500 res3),
                    proxyReq = None, piping = False\<rparr>
              else \<lparr>res = res3,
                    proxyReq = Some
                      \<lparr>module = protocol, target = audioUrl,
                       options_headers =
                         [(''User-Agent'', user_agent),
                          (''Range'', or_else (headers_range req) ''bytes=0-'')],
                       destroyed = False, bytesRead = 0\<rparr>,
                    piping = False\<rparr>))"

text \<open>
  \<^verbatim>\<open>if (proxyRes.headers[name]) res.setHeader(Name, proxyRes.headers[name]);\<close>
  (lines 254-262, three times).
\<close>

definition copy_header :: "IncomingMessage \<Rightarrow> string \<Rightarrow> string \<Rightarrow> ServerResponse \<Rightarrow> ServerResponse" where
  "copy_header proxyRes name Name r =
     (case upstream_headers proxyRes name of
        None \<Rightarrow> r
      | Some v \<Rightarrow> if truthy (Some v) then setHeader Name v r else r)"

text \<open>The response callback (lines 250-266), before \<open>pipe\<close> moves any byte.\<close>

definition on_response :: "IncomingMessage \<Rightarrow> ServerResponse \<Rightarrow> ServerResponse" where
  "on_response proxyRes r =
     copy_header proxyRes ''content-range'' ''Content-Range''
       (copy_header proxyRes ''content-length'' ''Content-Length''
         (copy_header proxyRes ''content-type'' ''Content-Type''
           (status (upstream_statusCode proxyRes) r)))"

text \<open>The error callback of the outbound request (lines 268-273).\<close>

definition on_error :: "ServerResponse \<Rightarrow> ServerResponse" where
  "on_error r = (if \<not> headersSent r then json_error ''Stream failed'' (status 500 r) else r)"

text \<open>The close callback of the client's request (lines 276-278): \<^verbatim>\<open>proxyReq.destroy()\<close>.\<close>

definition on_close :: "ClientRequest \<Rightarrow> ClientRequest" where
  "on_close r = r\<lparr>destroyed := True\<rparr>"

subsection \<open>The events of an exchange\<close>

text \<open>
  After the handler has returned, Node calls the callbacks as events arrive: the
  upstream's response head, a chunk of its body, the end of its body, an error of the
  outbound request, the close of the client's connection. The guards are Node's:
  no callback exists when no outbound request was made; the response head comes once,
  and not from a destroyed request; \<open>pipe\<close> moves a chunk only after the head, while the
  request is not destroyed and the response not ended; a request that has emitted an
  error is destroyed. A destroyed request can still emit its error (Node reports the
  hang-up of a request destroyed before its response). The record \<open>res\<close> follows the
  response as long as the client is connected: \<open>Close\<close> leaves it as it is, and what a
  callback writes after a \<open>Close\<close> reaches no client, so \<open>res\<close> is read only in
  histories without a \<open>Close\<close>.
\<close>

datatype event = Response IncomingMessage | Data string | End | Error string | Close

fun step :: "exchange \<Rightarrow> event \<Rightarrow> exchange" where
  "step x (Response proxyRes) =
     (case proxyReq x of
        None \<Rightarrow> x
      | Some r \<Rightarrow>
          if destroyed r \<or> piping x then x
          else x\<lparr>res := on_response proxyRes (res x), piping := True\<rparr>)"
| "step x (Data chunk) =
     (case proxyReq x of
        None \<Rightarrow> x
      | Some r \<Rightarrow>
          if destroyed r \<or> \<not> piping x \<or> finished (res x) then x
          else x\<lparr>res := res_write chunk (res x),
                 proxyReq := Some (r\<lparr>bytesRead := bytesRead r + length chunk\<rparr>)\<rparr>)"
| "step x End =
     (case proxyReq x of
        None \<Rightarrow> x
      | Some r \<Rightarrow>
          if destroyed r \<or> \<not> piping x \<or> finished (res x) then x
          else x\<lparr>res := end_response (res x)\<rparr>)"
| "step x (Error message) =
     (case proxyReq x of
        None \<Rightarrow> x
      | Some r \<Rightarrow> x\<lparr>res := on_error (res x), proxyReq := Some (r\<lparr>destroyed := True\<rparr>)\<rparr>)"
| "step x Close =
     (case proxyReq x of
        None \<Rightarrow> x
      | Some r \<Rightarrow> x\<lparr>proxyReq := Some (on_close r)\<rparr>)"

definition run :: "exchange \<Rightarrow> event list \<Rightarrow> exchange" where
  "run x events = foldl step x events"

section \<open>Sample inputs\<close>

text \<open>
  An upstream url that \<^verbatim>\<open>protocol.get\<close> accepts, whatever it is, and a registry
  holding one stream registered through \<^verbatim>\<open>/play/:videoId\<close> on 2023-11-14 at
  22:13:20 UTC (1700000000000 ms).
\<close>

definition never_throws :: "protocol \<Rightarrow> string \<Rightarrow> bool" where
  "never_throws protocol audioUrl = False"

definition old_registry :: cache where
  "old_registry =
     snd (play_register (const_clock 1700000000000) 0 ''0.abcdefgh'' ''https://u/old'' [])"

text \<open>
  A clock that shows 1700000000000 at its first two readings and 1700007200001, two
  hours later, from then on; a request for the sample stream with a byte range; and
  three upstream answers: a partial content with all three headers, one without a
  content type, one whose content type is empty.
\<close>

definition sample_clock :: clock where
  "sample_clock n = (if n < 2 then 1700000000000 else 1700007200001)"

definition sample_request :: request where
  "sample_request = \<lparr>params_streamId = ''loyw3v28abcdef'', headers_range = Some ''bytes=100-199''\<rparr>"

definition partial_content :: IncomingMessage where
  "partial_content =
     \<lparr>upstream_statusCode = 206,
      upstream_headers = map_of
        [(''content-type'', ''audio/mp4''), (''content-length'', ''100''),
         (''content-range'', ''bytes 100-199/500'')]\<rparr>"

definition untyped_content :: IncomingMessage where
  "untyped_content =
     \<lparr>upstream_statusCode = 200, upstream_headers = map_of [(''content-length'', ''500'')]\<rparr>"


section \<open>Properties of the registry\<close>

subsection \<open>The map\<close>

lemma map_of_Map_set: "map_of (Map_set k v al) = (map_of al)(k \<mapsto> v)"
  by (induction al) (auto simp: fun_eq_iff)

lemma keys_Map_set: "fst ` set (Map_set k v al) = insert k (fst ` set al)"
  by (induction al) auto

lemma distinct_Map_set: "distinct (map fst al) \<Longrightarrow> distinct (map fst (Map_set k v al))"
  by (induction al) (auto simp: keys_Map_set)

lemma resolve_None_iff: "resolve urlCache sid = None \<longleftrightarrow> sid \<notin> fst ` set urlCache"
proof -
  have "resolve urlCache sid = None \<longleftrightarrow> map_of urlCache sid = None"
    by (simp add: resolve_def split: option.splits)
  then show ?thesis by (simp add: map_of_eq_None_iff)
qed

subsection \<open>Base-36 timestamps\<close>

lemma distinct_digits36: "distinct digits36"
  by (simp add: digits36_def)

lemma length_digits36: "length digits36 = 36"
  by (simp add: digits36_def)

lemma digit_inj: "a < 36 \<Longrightarrow> b < 36 \<Longrightarrow> digits36 ! a = digits36 ! b \<Longrightarrow> a = b"
  using distinct_digits36 length_digits36 by (simp add: nth_eq_iff_index_eq)

lemma toString36_nonempty: "toString36 n \<noteq> []" "[] \<noteq> toString36 n"
  by (subst toString36.simps, simp)+

text \<open>Different numbers have different base-36 texts.\<close>

lemma toString36_inj: "toString36 a = toString36 b \<Longrightarrow> a = b"
proof (induction a arbitrary: b rule: toString36.induct)
  case (1 a)
  show ?case
  proof (cases "a < 36")
    case True
    show ?thesis
    proof (cases "b < 36")
      case True
      with \<open>a < 36\<close> "1.prems" show ?thesis
        by (simp add: toString36.simps [of a] toString36.simps [of b] digit_inj)
    next
      case False
      with \<open>a < 36\<close> "1.prems" show ?thesis
        by (simp add: toString36.simps [of a] toString36.simps [of b] toString36_nonempty)
    qed
  next
    case False
    show ?thesis
    proof (cases "b < 36")
      case True
      with \<open>\<not> a < 36\<close> "1.prems" show ?thesis
        by (simp add: toString36.simps [of a] toString36.simps [of b] toString36_nonempty)
    next
      case False
      with \<open>\<not> a < 36\<close> "1.prems"
      have eq: "toString36 (a div 36) = toString36 (b div 36)"
        and d: "digits36 ! (a mod 36) = digits36 ! (b mod 36)"
        by (simp_all add: toString36.simps [of a] toString36.simps [of b])
      from "1.IH" [OF \<open>\<not> a < 36\<close> eq] have "a div 36 = b div 36" .
      moreover from d have "a mod 36 = b mod 36" by (simp add: digit_inj)
      ultimately show ?thesis by (metis div_mult_mod_eq)
    qed
  qed
qed

text \<open>A number of \<open>k + 1\<close> base-36 digits has a text of that length.\<close>

lemma length_toString36: "36 ^ k \<le> n \<Longrightarrow> n < 36 ^ Suc k \<Longrightarrow> length (toString36 n) = Suc k"
proof (induction k arbitrary: n)
  case 0
  then show ?case by (simp add: toString36.simps [of n])
next
  case (Suc k)
  have "(1::nat) \<le> 36 ^ k" by simp
  then have "(36::nat) \<le> 36 ^ Suc k" by simp
  with Suc.prems have big: "\<not> n < 36" by linarith
  from Suc.prems have "36 ^ k * 36 \<le> n" by (simp add: mult.commute)
  then have "(36 ^ k * 36) div 36 \<le> n div 36" by (rule div_le_mono)
  then have lo: "36 ^ k \<le> n div 36" by simp
  from Suc.prems have "n < 36 ^ Suc k * 36" by (simp add: mult.commute)
  then have hi: "n div 36 < 36 ^ Suc k" by (simp add: less_mult_imp_div_less)
  from Suc.IH [OF lo hi] big show ?case
    by (simp add: toString36.simps [of n])
qed

lemma toString36_samples:
  "toString36 1700000000000 = ''loyw3v28''"
  "toString36 1700007200001 = ''loz0e6m9''"
  by (simp_all add: toString36.simps digits36_def)

lemma old_registry_value:
  "old_registry = [(''loyw3v28abcdef'', \<lparr>url = ''https://u/old'', expires = 1700003600000\<rparr>)]"
  by (simp add: old_registry_def play_register_def register_def streamId_of_def substring_def
      split_first_def const_clock_def toString36_samples Let_def)

subsection \<open>The cleanup loop\<close>

lemma cleanup_subset: "set (cleanup Date_now n urlCache) \<subseteq> set urlCache"
  by (induction Date_now n urlCache rule: cleanup.induct) auto

text \<open>An entry that survives the loop was not expired at the reading that visited it.\<close>

lemma cleanup_evicts:
  "(k, v) \<in> set (cleanup Date_now n urlCache) \<Longrightarrow>
     \<exists>i < length urlCache. Date_now (n + i) \<le> expires v"
proof (induction Date_now n urlCache rule: cleanup.induct)
  case (1 Date_now n)
  then show ?case by simp
next
  case (2 Date_now n key "value" rest)
  show ?case
  proof (cases "(k, v) \<in> set (cleanup Date_now (Suc n) rest)")
    case True
    from "2.IH"(1) "2.IH"(2) True
    obtain i where "i < length rest" "Date_now (Suc n + i) \<le> expires v"
      by (cases "expires value < Date_now n") auto
    then have "Suc i < length ((key, value) # rest)" "Date_now (n + Suc i) \<le> expires v"
      by simp_all
    then show ?thesis by blast
  next
    case False
    with "2.prems" have "(k, v) = (key, value)" "\<not> expires value < Date_now n"
      by (auto split: if_splits)
    then have "0 < length ((key, value) # rest)" "Date_now (n + 0) \<le> expires v"
      by simp_all
    then show ?thesis by blast
  qed
qed

text \<open>
  When the clock does not fall below \<open>t0\<close> during the loop, no entry that expired before
  \<open>t0\<close> is left.
\<close>

lemma cleanup_no_stale:
  assumes "\<And>i. t0 \<le> Date_now (n + i)" and "(k, v) \<in> set (cleanup Date_now n urlCache)"
  shows "t0 \<le> expires v"
  using cleanup_evicts [OF assms(2)] assms(1) by (meson le_trans)

text \<open>An entry that has not expired at any reading of the loop stays.\<close>

lemma cleanup_keeps:
  "(k, v) \<in> set urlCache \<Longrightarrow>
   (\<And>i. i < length urlCache \<Longrightarrow> Date_now (n + i) \<le> expires v) \<Longrightarrow>
   (k, v) \<in> set (cleanup Date_now n urlCache)"
proof (induction Date_now n urlCache rule: cleanup.induct)
  case (1 Date_now n)
  then show ?case by simp
next
  case (2 Date_now n key "value" rest)
  have rest: "(k, v) \<in> set rest \<Longrightarrow> (k, v) \<in> set (cleanup Date_now (Suc n) rest)"
  proof -
    assume a: "(k, v) \<in> set rest"
    have b: "\<And>i. i < length rest \<Longrightarrow> Date_now (Suc n + i) \<le> expires v"
      using "2.prems"(2) [of "Suc _"] by simp
    show ?thesis
      using "2.IH"(1) [OF _ a b] "2.IH"(2) [OF _ a b]
      by (cases "expires value < Date_now n") auto
  qed
  from "2.prems"(2) [of 0] have head: "(k, v) = (key, value) \<Longrightarrow> \<not> expires value < Date_now n"
    by auto
  from "2.prems"(1) rest head show ?case by auto
qed

text \<open>With a clock that stands still the loop is a filter.\<close>

lemma cleanup_const_clock:
  "cleanup (const_clock t) n urlCache = filter (\<lambda>(key, value). \<not> expires value < t) urlCache"
  by (induction urlCache arbitrary: n) (auto simp: const_clock_def)

lemma keys_cleanup: "fst ` set (cleanup Date_now n urlCache) \<subseteq> fst ` set urlCache"
  using cleanup_subset by (metis image_mono)

lemma distinct_cleanup:
  "distinct (map fst urlCache) \<Longrightarrow> distinct (map fst (cleanup Date_now n urlCache))"
proof (induction Date_now n urlCache rule: cleanup.induct)
  case (1 Date_now n)
  then show ?case by simp
next
  case (2 Date_now n key "value" rest)
  have "key \<notin> fst ` set (cleanup Date_now (Suc n) rest)"
    using "2.prems" keys_cleanup [of Date_now "Suc n" rest] by auto
  with 2 show ?case by auto
qed

lemma length_cleanup: "length (cleanup Date_now n urlCache) \<le> length urlCache"
  by (induction Date_now n urlCache rule: cleanup.induct) auto

text \<open>A registration through \<^verbatim>\<open>/play/:videoId\<close> never makes the map smaller.\<close>

lemma length_Map_set: "length al \<le> length (Map_set k v al)"
  by (induction al) auto

lemma play_register_grows:
  "length urlCache \<le> length (snd (play_register Date_now n rnd audioUrl urlCache))"
  by (simp add: play_register_def register_def Let_def length_Map_set)

text \<open>
  After a registration through \<^verbatim>\<open>/search\<close>, with a clock that does not fall below
  \<open>t0\<close> during the cleanup, the registry holds no entry that expired before \<open>t0\<close>: every
  entry was registered less than an hour before the last reading.
\<close>

lemma search_register_fresh:
  assumes "\<forall>i. t0 \<le> Date_now (n + 2 + i)"
    and "search_register Date_now n rnd audioUrl urlCache = Inr (sid, urlCache')"
    and "(k, v) \<in> set urlCache'"
  shows "t0 \<le> expires v"
proof -
  from assms(2)
  have "urlCache' = cleanup Date_now (n + 2) (snd (register Date_now n rnd audioUrl urlCache))"
    by (auto simp: search_register_def split: if_splits prod.splits)
  with assms(3) assms(1) show ?thesis using cleanup_no_stale by blast
qed

section \<open>The claims about the registry\<close>

text \<open>
  Claim C1, as the code has it. The lookup of the proxy finds nothing exactly when the
  id is not a key of the map; it reads neither the clock nor \<open>expires\<close>. What ends an
  entry's life is the cleanup of \<^verbatim>\<open>/search\<close>: once a cleanup has run whose clock
  readings are all at least \<open>t0\<close>, an id whose entry expired before \<open>t0\<close> is not found.
\<close>

theorem resolve_after_cleanup:
  assumes "\<forall>i. t0 \<le> Date_now (n + i)"
    and "\<forall>e. (sid, e) \<in> set urlCache \<longrightarrow> expires e < t0"
  shows "(resolve urlCache sid = None \<longleftrightarrow> sid \<notin> fst ` set urlCache) \<and>
         resolve (cleanup Date_now n urlCache) sid = None"
proof
  show "resolve urlCache sid = None \<longleftrightarrow> sid \<notin> fst ` set urlCache"
    by (rule resolve_None_iff)
next
  have "sid \<notin> fst ` set (cleanup Date_now n urlCache)"
  proof
    assume "sid \<in> fst ` set (cleanup Date_now n urlCache)"
    then obtain e where e: "(sid, e) \<in> set (cleanup Date_now n urlCache)" by auto
    with assms(1) have "t0 \<le> expires e" using cleanup_no_stale by blast
    moreover from e cleanup_subset have "(sid, e) \<in> set urlCache" by blast
    ultimately show False using assms(2) by fastforce
  qed
  then show "resolve (cleanup Date_now n urlCache) sid = None"
    by (simp add: resolve_None_iff)
qed

text \<open>
  Claim C1, an instance: two hours after its registration the sample stream is still
  resolved, and a cleanup at that time removes it.
\<close>

theorem resolve_after_cleanup_witness:
  "(\<forall>i. 1700007200001 \<le> const_clock 1700007200001 (0 + i)) \<and>
   resolve old_registry ''loyw3v28abcdef'' = Some ''https://u/old'' \<and>
   resolve (cleanup (const_clock 1700007200001) 0 old_registry) ''loyw3v28abcdef'' = None"
proof -
  have clk: "\<forall>i. 1700007200001 \<le> const_clock 1700007200001 (0 + i)"
    by (simp add: const_clock_def)
  have old: "\<forall>e. (''loyw3v28abcdef'', e) \<in> set old_registry \<longrightarrow> expires e < 1700007200001"
    by (simp add: old_registry_value)
  from resolve_after_cleanup [OF clk old] clk show ?thesis
    by (simp add: old_registry_value resolve_def)
qed

text \<open>
  Claim C1 as stated fails: the sample entry expires at 1700003600000; at the later time
  1700007200001, with no cleanup in between, the lookup returns its url and the proxy
  opens the upstream request instead of answering 404.
\<close>

theorem expired_entry_is_served:
  "map_of old_registry ''loyw3v28abcdef'' =
     Some \<lparr>url = ''https://u/old'', expires = 1700003600000\<rparr> \<and>
   (1700003600000 :: nat) \<le> 1700007200001 \<and>
   resolve old_registry ''loyw3v28abcdef'' = Some ''https://u/old'' \<and>
   statusCode (res (proxy_handler never_throws old_registry
     \<lparr>params_streamId = ''loyw3v28abcdef'', headers_range = None\<rparr>)) = 200 \<and>
   map_option target (proxyReq (proxy_handler never_throws old_registry
     \<lparr>params_streamId = ''loyw3v28abcdef'', headers_range = None\<rparr>)) = Some ''https://u/old''"
  by (simp add: old_registry_value resolve_def proxy_handler_def never_throws_def Let_def
      setHeader_def new_response_def)

text \<open>
  Claim C2. Looking up the id that a registration returned, in the registry that the
  registration left, gives the url that was registered: the first line of the extractor's
  output. This holds for every clock, random text, output and earlier registry. The code
  gives every entry a lifetime of one hour; the lookup right after \<^verbatim>\<open>urlCache.set\<close>
  returns the stored url whatever expiry is stored with it.
\<close>

theorem resolve_register:
  "resolve (snd (register Date_now n rnd audioUrl urlCache))
           (fst (register Date_now n rnd audioUrl urlCache)) = Some (split_first audioUrl) \<and>
   resolve (Map_set sid \<lparr>url = u, expires = t\<rparr> urlCache) sid = Some u"
  by (simp add: resolve_def register_def Let_def map_of_Map_set)

text \<open>
  Claim C7, at the input where the code departs from it. The registry holds the sample
  entry, expired at 1700003600000. A registration through \<^verbatim>\<open>/play/:videoId\<close> at
  1700007200001 leaves the expired entry in the map, beside the new one: that handler
  never runs the cleanup. The same registration through \<^verbatim>\<open>/search\<close> evicts it.
\<close>

theorem play_register_keeps_expired:
  "play_register (const_clock 1700007200001) 0 ''0.4fzyo82mvyr'' ''https://u/new'' old_registry =
     (''loz0e6m94fzyo8'',
      [(''loyw3v28abcdef'', \<lparr>url = ''https://u/old'', expires = 1700003600000\<rparr>),
       (''loz0e6m94fzyo8'', \<lparr>url = ''https://u/new'', expires = 1700010800001\<rparr>)]) \<and>
   search_register (const_clock 1700007200001) 0 ''0.4fzyo82mvyr'' ''https://u/new'' old_registry =
     Inr (''loz0e6m94fzyo8'',
      [(''loz0e6m94fzyo8'', \<lparr>url = ''https://u/new'', expires = 1700010800001\<rparr>)])"
  by (simp add: old_registry_value play_register_def search_register_def register_def
      streamId_of_def substring_def split_first_def const_clock_def toString36_samples Let_def)

text \<open>
  Claim C8, as the code has it. For clock readings with eight base-36 digits (every
  time from the middle of 1972 to May 2059), two registrations get the same id exactly when
  both read the same millisecond and their random texts agree on the characters 2 to 7.
  So the ids differ whenever the milliseconds differ or the random slices differ.
\<close>

theorem register_same_id_iff:
  assumes "36 ^ 7 \<le> Date_now n" and "Date_now n < 36 ^ 8"
    and "36 ^ 7 \<le> Date_now' m" and "Date_now' m < 36 ^ 8"
  shows "fst (register Date_now n rnd audioUrl urlCache) =
         fst (register Date_now' m rnd' audioUrl' urlCache') \<longleftrightarrow>
         Date_now n = Date_now' m \<and> substring 2 8 rnd = substring 2 8 rnd'"
proof -
  have "length (toString36 (Date_now n)) = 8" "length (toString36 (Date_now' m)) = 8"
    using assms length_toString36 [of 7 "Date_now n"] length_toString36 [of 7 "Date_now' m"]
    by simp_all
  then have "toString36 (Date_now n) @ substring 2 8 rnd =
             toString36 (Date_now' m) @ substring 2 8 rnd' \<longleftrightarrow>
             toString36 (Date_now n) = toString36 (Date_now' m) \<and>
             substring 2 8 rnd = substring 2 8 rnd'"
    by simp
  then show ?thesis
    using toString36_inj by (auto simp: register_def streamId_of_def Let_def)
qed

text \<open>
  Claim C8, an instance: the same random text one millisecond apart gives two ids.
\<close>

theorem register_same_id_iff_witness:
  "fst (register (const_clock 1700000000000) 0 ''0.4fzyo82mvyr'' ''https://u/a'' []) \<noteq>
   fst (register (const_clock 1700000000001) 0 ''0.4fzyo82mvyr'' ''https://u/b'' [])"
  using register_same_id_iff [of "const_clock 1700000000000" 0 "const_clock 1700000000001" 0
      "''0.4fzyo82mvyr''" "''https://u/a''" "[]" "''0.4fzyo82mvyr''" "''https://u/b''" "[]"]
  by (simp add: const_clock_def)

text \<open>
  Claim C8 as stated fails: two registrations in one millisecond whose random texts
  differ only after the sixth digit get the same id, and the second replaces the live
  entry of the first.
\<close>

theorem same_millisecond_collision:
  "''0.4fzyo82mvyr'' \<noteq> ''0.4fzyo8zzzzz'' \<and>
   register (const_clock 1700000000000) 0 ''0.4fzyo82mvyr'' ''https://u/a'' [] =
     (''loyw3v284fzyo8'',
      [(''loyw3v284fzyo8'', \<lparr>url = ''https://u/a'', expires = 1700003600000\<rparr>)]) \<and>
   register (const_clock 1700000000000) 2 ''0.4fzyo8zzzzz'' ''https://u/b''
      [(''loyw3v284fzyo8'', \<lparr>url = ''https://u/a'', expires = 1700003600000\<rparr>)] =
     (''loyw3v284fzyo8'',
      [(''loyw3v284fzyo8'', \<lparr>url = ''https://u/b'', expires = 1700003600000\<rparr>)])"
  by (simp add: register_def streamId_of_def substring_def split_first_def const_clock_def
      toString36_samples Let_def)

section \<open>Properties of the proxy\<close>

lemma run_Nil: "run x [] = x"
  by (simp add: run_def)

lemma run_Cons: "run x (e # events) = run (step x e) events"
  by (simp add: run_def)

lemma step_no_request: "proxyReq x = None \<Longrightarrow> step x e = x"
  by (cases e) simp_all

lemma run_no_request: "proxyReq x = None \<Longrightarrow> run x events = x"
  by (induction events arbitrary: x) (simp_all add: run_Nil run_Cons step_no_request)

lemma proxy_handler_not_found:
  \<open>resolve urlCache (params_streamId req) = None \<Longrightarrow>
   proxy_handler get_throws urlCache req =
     \<lparr>res = \<lparr>statusCode = 404, headers = Map.empty, headersSent = True,
             body = ''{"error":"Stream not found or expired"}'', finished = True\<rparr>,
      proxyReq = None, piping = False\<rparr>\<close>
  by (simp add: proxy_handler_def json_error_def status_def new_response_def)

lemma proxy_handler_found:
  assumes "resolve urlCache (params_streamId req) = Some audioUrl"
    and "\<not> get_throws (if startsWith audioUrl ''https'' then https else http) audioUrl"
  shows "proxy_handler get_throws urlCache req =
     \<lparr>res = \<lparr>statusCode = 200,
             headers = [''Content-Type'' \<mapsto> ''audio/webm'', ''Accept-Ranges'' \<mapsto> ''bytes'',
                        ''Cache-Control'' \<mapsto> ''no-cache''],
             headersSent = False, body = [], finished = False\<rparr>,
      proxyReq = Some
        \<lparr>module = (if startsWith audioUrl ''https'' then https else http), target = audioUrl,
         options_headers =
           [(''User-Agent'', user_agent), (''Range'', or_else (headers_range req) ''bytes=0-'')],
         destroyed = False, bytesRead = 0\<rparr>,
      piping = False\<rparr>"
  using assms by (simp add: proxy_handler_def Let_def setHeader_def new_response_def)

lemma history_Play:
  "history Date_now n (Play rnd audioUrl # calls) urlCache =
     (fst (register Date_now n rnd audioUrl urlCache) #
        fst (history Date_now (n + 2) calls (snd (register Date_now n rnd audioUrl urlCache))),
      snd (history Date_now (n + 2) calls (snd (register Date_now n rnd audioUrl urlCache))))"
  by (simp add: play_register_def split: prod.splits)

lemma history_Search_empty:
  "history Date_now n (Search rnd [] # calls) urlCache = history Date_now n calls urlCache"
  by (simp add: search_register_def)

lemma history_Search:
  "audioUrl \<noteq> [] \<Longrightarrow>
   history Date_now n (Search rnd audioUrl # calls) urlCache =
     (fst (register Date_now n rnd audioUrl urlCache) #
        fst (history Date_now
               (n + 2 + length (snd (register Date_now n rnd audioUrl urlCache))) calls
               (cleanup Date_now (n + 2) (snd (register Date_now n rnd audioUrl urlCache)))),
      snd (history Date_now
               (n + 2 + length (snd (register Date_now n rnd audioUrl urlCache))) calls
               (cleanup Date_now (n + 2) (snd (register Date_now n rnd audioUrl urlCache)))))"
  by (simp add: search_register_def split: prod.splits)

lemma keys_register:
  "fst ` set (snd (register Date_now n rnd audioUrl urlCache)) =
     insert (fst (register Date_now n rnd audioUrl urlCache)) (fst ` set urlCache)"
  by (simp add: register_def Let_def keys_Map_set)

text \<open>Every key of the registry was handed out by a registration.\<close>

lemma keys_history:
  "fst ` set (snd (history Date_now n calls urlCache))
     \<subseteq> fst ` set urlCache \<union> set (fst (history Date_now n calls urlCache))"
proof (induction calls arbitrary: n urlCache)
  case Nil
  then show ?case by simp
next
  case (Cons c calls)
  show ?case
  proof (cases c)
    case (Play rnd audioUrl)
    from Cons.IH [of "n + 2" "snd (register Date_now n rnd audioUrl urlCache)"]
    show ?thesis
      unfolding Play history_Play keys_register by auto
  next
    case (Search rnd audioUrl)
    show ?thesis
    proof (cases "audioUrl = []")
      case True
      show ?thesis
        unfolding Search True history_Search_empty by (rule Cons.IH)
    next
      case False
      let ?r = "register Date_now n rnd audioUrl urlCache"
      have "fst ` set (cleanup Date_now (n + 2) (snd ?r)) \<subseteq> insert (fst ?r) (fst ` set urlCache)"
        using keys_cleanup [of Date_now "n + 2" "snd ?r"] by (simp add: keys_register)
      with Cons.IH [of "n + 2 + length (snd ?r)" "cleanup Date_now (n + 2) (snd ?r)"]
      show ?thesis
        unfolding Search history_Search [OF False] by auto
    qed
  qed
qed

text \<open>
  Claim C3, as the code has it. After any history of registrations, a request for an id
  that no registration handed out, or that is no longer a key of the map, is answered
  404 with the body \<^verbatim>\<open>{"error":"Stream not found or expired"}\<close>; no outbound request is
  made, and no later event changes that. The answer is the same record in both cases:
  an id that was never registered and one that was evicted after its expiry cannot be
  told apart.
\<close>

theorem proxy_unknown_id:
  assumes "params_streamId req \<notin> set (fst (history Date_now n calls [])) \<or>
           params_streamId req \<notin> fst ` set (snd (history Date_now n calls []))"
  shows \<open>run (proxy_handler get_throws (snd (history Date_now n calls [])) req) events =
     \<lparr>res = \<lparr>statusCode = 404, headers = Map.empty, headersSent = True,
             body = ''{"error":"Stream not found or expired"}'', finished = True\<rparr>,
      proxyReq = None, piping = False\<rparr>\<close>
proof -
  from assms keys_history [of Date_now n calls "[]"]
  have "params_streamId req \<notin> fst ` set (snd (history Date_now n calls []))"
    by auto
  then have "resolve (snd (history Date_now n calls [])) (params_streamId req) = None"
    by (simp add: resolve_None_iff)
  then show ?thesis
    by (simp add: proxy_handler_not_found run_no_request)
qed

lemma sample_history:
  "history sample_clock 0
     [Play ''0.abcdefgh'' ''https://u/old'', Search ''0.4fzyo82mvyr'' ''https://u/new''] [] =
   ([''loyw3v28abcdef'', ''loz0e6m94fzyo8''],
    [(''loz0e6m94fzyo8'', \<lparr>url = ''https://u/new'', expires = 1700010800001\<rparr>)])"
  by (simp add: play_register_def search_register_def register_def
      streamId_of_def substring_def split_first_def sample_clock_def toString36_samples Let_def)

text \<open>
  Claim C3, an instance: one stream is registered through \<^verbatim>\<open>/play/:videoId\<close>, and
  two hours later a registration through \<^verbatim>\<open>/search\<close> evicts it. An id never handed
  out and the evicted id get the same answer.
\<close>

theorem proxy_unknown_id_witness:
  \<open>run (proxy_handler never_throws
      (snd (history sample_clock 0
         [Play ''0.abcdefgh'' ''https://u/old'', Search ''0.4fzyo82mvyr'' ''https://u/new''] []))
      \<lparr>params_streamId = ''loyw3v28zzzzzz'', headers_range = None\<rparr>) [Close] =
     \<lparr>res = \<lparr>statusCode = 404, headers = Map.empty, headersSent = True,
             body = ''{"error":"Stream not found or expired"}'', finished = True\<rparr>,
      proxyReq = None, piping = False\<rparr> \<and>
   run (proxy_handler never_throws
      (snd (history sample_clock 0
         [Play ''0.abcdefgh'' ''https://u/old'', Search ''0.4fzyo82mvyr'' ''https://u/new''] []))
      \<lparr>params_streamId = ''loyw3v28abcdef'', headers_range = None\<rparr>) [Close] =
     \<lparr>res = \<lparr>statusCode = 404, headers = Map.empty, headersSent = True,
             body = ''{"error":"Stream not found or expired"}'', finished = True\<rparr>,
      proxyReq = None, piping = False\<rparr>\<close>
proof -
  have never: "params_streamId \<lparr>params_streamId = ''loyw3v28zzzzzz'', headers_range = None\<rparr>
        \<notin> set (fst (history sample_clock 0
          [Play ''0.abcdefgh'' ''https://u/old'', Search ''0.4fzyo82mvyr'' ''https://u/new''] [])) \<or>
      params_streamId \<lparr>params_streamId = ''loyw3v28zzzzzz'', headers_range = None\<rparr>
        \<notin> fst ` set (snd (history sample_clock 0
          [Play ''0.abcdefgh'' ''https://u/old'', Search ''0.4fzyo82mvyr'' ''https://u/new''] []))"
    unfolding sample_history by simp
  have evicted: "params_streamId \<lparr>params_streamId = ''loyw3v28abcdef'', headers_range = None\<rparr>
        \<notin> set (fst (history sample_clock 0
          [Play ''0.abcdefgh'' ''https://u/old'', Search ''0.4fzyo82mvyr'' ''https://u/new''] [])) \<or>
      params_streamId \<lparr>params_streamId = ''loyw3v28abcdef'', headers_range = None\<rparr>
        \<notin> fst ` set (snd (history sample_clock 0
          [Play ''0.abcdefgh'' ''https://u/old'', Search ''0.4fzyo82mvyr'' ''https://u/new''] []))"
    unfolding sample_history by simp
  show ?thesis
    using proxy_unknown_id [OF never, of never_throws "[Close]"]
      proxy_unknown_id [OF evicted, of never_throws "[Close]"]
    by (rule conjI)
qed

text \<open>
  Claim C3 as stated fails where it equates the answer with the one for an expired id:
  the sample stream, expired at 1700003600000 and still in the map at 1700007200001, is
  answered with an upstream request and the status 200, an id never registered with 404.
\<close>

theorem expired_id_is_distinguishable:
  "history (const_clock 1700000000000) 0 [Play ''0.abcdefgh'' ''https://u/old''] [] =
     ([''loyw3v28abcdef''], old_registry) \<and>
   expires (the (map_of old_registry ''loyw3v28abcdef'')) \<le> 1700007200001 \<and>
   statusCode (res (proxy_handler never_throws old_registry
     \<lparr>params_streamId = ''loyw3v28zzzzzz'', headers_range = None\<rparr>)) = 404 \<and>
   proxyReq (proxy_handler never_throws old_registry
     \<lparr>params_streamId = ''loyw3v28zzzzzz'', headers_range = None\<rparr>) = None \<and>
   statusCode (res (proxy_handler never_throws old_registry
     \<lparr>params_streamId = ''loyw3v28abcdef'', headers_range = None\<rparr>)) = 200 \<and>
   proxyReq (proxy_handler never_throws old_registry
     \<lparr>params_streamId = ''loyw3v28abcdef'', headers_range = None\<rparr>) \<noteq> None"
  by (simp add: old_registry_def play_register_def register_def streamId_of_def substring_def
      split_first_def const_clock_def toString36_samples Let_def
      resolve_def proxy_handler_def never_throws_def json_error_def status_def
      setHeader_def new_response_def)

lemma old_registry_resolve: "resolve old_registry ''loyw3v28abcdef'' = Some ''https://u/old''"
  by (simp add: old_registry_value resolve_def)

lemma sample_url_accepted:
  "\<not> never_throws (if startsWith ''https://u/old'' ''https'' then https else http) ''https://u/old''"
  by (simp add: never_throws_def)

lemma headers_copy_header:
  "headers (copy_header proxyRes name Name r) k =
     (if k = Name \<and> truthy (upstream_headers proxyRes name) then upstream_headers proxyRes name
      else headers r k)"
  by (cases "upstream_headers proxyRes name") (simp_all add: copy_header_def setHeader_def)

lemma copy_header_fields:
  "statusCode (copy_header proxyRes name Name r) = statusCode r"
  "headersSent (copy_header proxyRes name Name r) = headersSent r"
  "body (copy_header proxyRes name Name r) = body r"
  "finished (copy_header proxyRes name Name r) = finished r"
  by (cases "upstream_headers proxyRes name"; simp add: copy_header_def setHeader_def)+

lemma on_response_fields:
  "statusCode (on_response proxyRes r) = upstream_statusCode proxyRes"
  "headersSent (on_response proxyRes r) = headersSent r"
  "body (on_response proxyRes r) = body r"
  "finished (on_response proxyRes r) = finished r"
  by (simp_all add: on_response_def copy_header_fields status_def)

lemma headers_on_response:
  "headers (on_response proxyRes r) k =
     (if k = ''Content-Range'' \<and> truthy (upstream_headers proxyRes ''content-range'')
      then upstream_headers proxyRes ''content-range''
      else if k = ''Content-Length'' \<and> truthy (upstream_headers proxyRes ''content-length'')
      then upstream_headers proxyRes ''content-length''
      else if k = ''Content-Type'' \<and> truthy (upstream_headers proxyRes ''content-type'')
      then upstream_headers proxyRes ''content-type''
      else headers r k)"
  by (simp add: on_response_def headers_copy_header status_def)

lemma step_Response_found:
  assumes "resolve urlCache (params_streamId req) = Some audioUrl"
    and "\<not> get_throws (if startsWith audioUrl ''https'' then https else http) audioUrl"
  shows "res (step (proxy_handler get_throws urlCache req) (Response proxyRes)) =
         on_response proxyRes (res (proxy_handler get_throws urlCache req))"
  by (simp add: proxy_handler_found [where get_throws = get_throws, OF assms])




text \<open>
  Claim C10. When the upstream's answer has no \<open>Content-Type\<close> header, the outer response
  carries \<open>Content-Type: audio/webm\<close>, the value set before the upstream request.
\<close>

theorem default_content_type:
  assumes "resolve urlCache (params_streamId req) = Some audioUrl"
    and "\<not> get_throws (if startsWith audioUrl ''https'' then https else http) audioUrl"
    and "upstream_headers proxyRes ''content-type'' = None"
  shows "headers (res (step (proxy_handler get_throws urlCache req) (Response proxyRes)))
           ''Content-Type'' = Some ''audio/webm''"
  unfolding step_Response_found [where get_throws = get_throws, OF assms(1,2)]
  by (simp add: headers_on_response assms(3) proxy_handler_found [where get_throws = get_throws, OF assms(1,2)])

text \<open>
  Claim C10, an instance: an upstream answer with a content length only.
\<close>

theorem default_content_type_witness:
  "upstream_headers untyped_content ''content-type'' = None \<and>
   headers (res (step (proxy_handler never_throws old_registry sample_request)
     (Response untyped_content))) ''Content-Type'' = Some ''audio/webm''"
proof -
  have found: "resolve old_registry (params_streamId sample_request) = Some ''https://u/old''"
    by (simp add: sample_request_def old_registry_resolve)
  have none: "upstream_headers untyped_content ''content-type'' = None"
    by (simp add: untyped_content_def)
  from default_content_type [where get_throws = never_throws, OF found sample_url_accepted none] none
  show ?thesis by simp
qed

text \<open>
  Claim C5, as the code has it. When the id resolves and \<^verbatim>\<open>protocol.get\<close> accepts the
  url, the outbound request goes to the resolved url with the fixed browser
  \<open>User-Agent\<close>, and its \<open>Range\<close> header is the client's value when the client sent a
  non-empty one, \<open>bytes=0-\<close> when the client sent none or an empty one.
\<close>

theorem outbound_request:
  assumes "resolve urlCache (params_streamId req) = Some audioUrl"
    and "\<not> get_throws (if startsWith audioUrl ''https'' then https else http) audioUrl"
  shows "\<exists>r. proxyReq (proxy_handler get_throws urlCache req) = Some r \<and>
           target r = audioUrl \<and>
           map_of (options_headers r) ''User-Agent'' = Some user_agent \<and>
           map_of (options_headers r) ''Range'' =
             (case headers_range req of
                None \<Rightarrow> Some ''bytes=0-''
              | Some v \<Rightarrow> if v = [] then Some ''bytes=0-'' else Some v)"
  by (cases "headers_range req") (simp_all add: proxy_handler_found [where get_throws = get_throws, OF assms])

text \<open>
  Claim C5, an instance: the client's range is forwarded, and a request without a range
  asks for \<open>bytes=0-\<close>.
\<close>

theorem outbound_request_witness:
  "map_option target (proxyReq (proxy_handler never_throws old_registry sample_request)) =
     Some ''https://u/old'' \<and>
   map_option (\<lambda>r. map_of (options_headers r) ''Range'')
     (proxyReq (proxy_handler never_throws old_registry sample_request)) =
     Some (Some ''bytes=100-199'') \<and>
   map_option (\<lambda>r. map_of (options_headers r) ''Range'')
     (proxyReq (proxy_handler never_throws old_registry
        \<lparr>params_streamId = ''loyw3v28abcdef'', headers_range = None\<rparr>)) =
     Some (Some ''bytes=0-'')"
proof -
  have found: "resolve old_registry (params_streamId sample_request) = Some ''https://u/old''"
    by (simp add: sample_request_def old_registry_resolve)
  have found': "resolve old_registry
      (params_streamId \<lparr>params_streamId = ''loyw3v28abcdef'', headers_range = None\<rparr>) =
      Some ''https://u/old''"
    by (simp add: old_registry_resolve)
  from outbound_request [where get_throws = never_throws, OF found sample_url_accepted]
    outbound_request [where get_throws = never_throws, OF found' sample_url_accepted]
  show ?thesis by (auto simp: sample_request_def)
qed

text \<open>
  Claim C5 as stated fails for a client that sends a \<open>Range\<close> header with an empty
  value: \<^verbatim>\<open>req.headers.range || 'bytes=0-'\<close> replaces it, so the outbound request does
  not carry the client's value.
\<close>

theorem empty_range_replaced:
  "headers_range \<lparr>params_streamId = ''loyw3v28abcdef'', headers_range = Some []\<rparr> = Some [] \<and>
   map_option options_headers (proxyReq (proxy_handler never_throws old_registry
     \<lparr>params_streamId = ''loyw3v28abcdef'', headers_range = Some []\<rparr>)) =
   Some [(''User-Agent'', user_agent), (''Range'', ''bytes=0-'')]"
  by (simp add: old_registry_value resolve_def proxy_handler_def never_throws_def Let_def)

lemma sample_request_fields:
  "params_streamId sample_request = ''loyw3v28abcdef''"
  "headers_range sample_request = Some ''bytes=100-199''"
  by (simp_all add: sample_request_def)

text \<open>Nothing is written to the client before its head goes out.\<close>

lemma step_unsent_body:
  assumes "\<not> headersSent (res x) \<Longrightarrow> body (res x) = []"
    and "\<not> headersSent (res (step x e))"
  shows "body (res (step x e)) = []"
proof (cases "proxyReq x")
  case None
  with assms show ?thesis by (simp add: step_no_request)
next
  case (Some r)
  with assms show ?thesis
    by (cases e)
      (auto simp: on_response_fields res_write_def end_response_def on_error_def json_error_def
        split: if_splits)
qed

lemma proxy_handler_unsent_body:
  "\<not> headersSent (res (proxy_handler get_throws urlCache req)) \<Longrightarrow>
   body (res (proxy_handler get_throws urlCache req)) = []"
  by (auto simp: proxy_handler_def Let_def json_error_def setHeader_def new_response_def
      split: option.splits if_splits)

lemma run_snoc: "run x (events @ [e]) = step (run x events) e"
  by (simp add: run_def)

lemma run_unsent_body:
  "\<not> headersSent (res (run (proxy_handler get_throws urlCache req) events)) \<Longrightarrow>
   body (res (run (proxy_handler get_throws urlCache req) events)) = []"
proof (induction events rule: rev_induct)
  case Nil
  then show ?case by (simp add: run_Nil proxy_handler_unsent_body)
next
  case (snoc e events)
  show ?case
    unfolding run_snoc
    by (rule step_unsent_body [OF snoc.IH]) (use snoc.prems in \<open>simp_all add: run_snoc\<close>)
qed

text \<open>
  Claim C6, as the code has it. In any state an exchange reaches while its outbound
  request exists and the client is connected (no \<open>Close\<close> so far), an error of that
  request is answered as follows. If the head has not
  gone out to the client, the response gets the status 500 and the body
  \<^verbatim>\<open>{"error":"Stream failed"}\<close> and is ended. If the head has gone out, the callback
  does nothing: the response keeps its status, its headers and its body, and the
  callback does not end it.
\<close>

theorem upstream_error:
  assumes "x = run (proxy_handler get_throws urlCache req) events"
    and "Close \<notin> set events"
    and "proxyReq x \<noteq> None"
  shows \<open>if headersSent (res x)
         then res (step x (Error message)) = res x
         else statusCode (res (step x (Error message))) = 500 \<and>
              body (res (step x (Error message))) = ''{"error":"Stream failed"}'' \<and>
              headersSent (res (step x (Error message))) \<and>
              finished (res (step x (Error message)))\<close>
proof -
  from assms(3) obtain r where r: "proxyReq x = Some r" by auto
  show ?thesis
  proof (cases "headersSent (res x)")
    case True
    with r show ?thesis by (simp add: on_error_def)
  next
    case False
    with assms(1) have "body (res x) = []" using run_unsent_body by blast
    with False r show ?thesis
      by (simp add: on_error_def json_error_def status_def)
  qed
qed

text \<open>
  Claim C6, an instance: an error before the upstream answered, and an error after the
  first chunk was forwarded.
\<close>

theorem upstream_error_witness:
  \<open>statusCode (res (step (run (proxy_handler never_throws old_registry sample_request) [])
      (Error ''connect ECONNREFUSED''))) = 500 \<and>
   body (res (step (run (proxy_handler never_throws old_registry sample_request) [])
      (Error ''connect ECONNREFUSED''))) = ''{"error":"Stream failed"}'' \<and>
   res (step (run (proxy_handler never_throws old_registry sample_request)
               [Response partial_content, Data ''abc''])
      (Error ''read ECONNRESET'')) =
   res (run (proxy_handler never_throws old_registry sample_request)
               [Response partial_content, Data ''abc''])\<close>
proof -
  have found: "resolve old_registry (params_streamId sample_request) = Some ''https://u/old''"
    by (simp add: sample_request_def old_registry_resolve)
  note start = proxy_handler_found [where get_throws = never_throws, OF found sample_url_accepted]
  have a: "proxyReq (run (proxy_handler never_throws old_registry sample_request) []) \<noteq> None"
    and a': "\<not> headersSent (res (run (proxy_handler never_throws old_registry sample_request) []))"
    by (simp_all add: run_Nil start)
  have b: "proxyReq (run (proxy_handler never_throws old_registry sample_request)
               [Response partial_content, Data ''abc'']) \<noteq> None"
    and b': "headersSent (res (run (proxy_handler never_throws old_registry sample_request)
               [Response partial_content, Data ''abc'']))"
    by (simp_all add: run_Cons run_Nil start on_response_fields res_write_def)
  have connected: "Close \<notin> set []" "Close \<notin> set [Response partial_content, Data ''abc'']"
    by simp_all
  from upstream_error [OF refl connected(1) a, where message = "''connect ECONNREFUSED''"]
    upstream_error [OF refl connected(2) b, where message = "''read ECONNRESET''"] a' b'
  show ?thesis by simp
qed

text \<open>
  Claim C6 as stated fails in its last part: after the head and three bytes have gone out,
  an error of the outbound request leaves the response as it was, status 206 and not
  ended; the callback does not terminate it.
\<close>

theorem response_left_open_after_error:
  "headersSent (res (run (proxy_handler never_throws old_registry sample_request)
      [Response partial_content, Data ''abc''])) \<and>
   \<not> finished (res (step (run (proxy_handler never_throws old_registry sample_request)
      [Response partial_content, Data ''abc'']) (Error ''read ECONNRESET''))) \<and>
   statusCode (res (step (run (proxy_handler never_throws old_registry sample_request)
      [Response partial_content, Data ''abc'']) (Error ''read ECONNRESET''))) = 206 \<and>
   body (res (step (run (proxy_handler never_throws old_registry sample_request)
      [Response partial_content, Data ''abc'']) (Error ''read ECONNRESET''))) = ''abc''"
proof -
  have found: "resolve old_registry (params_streamId sample_request) = Some ''https://u/old''"
    by (simp add: sample_request_def old_registry_resolve)
  note start = proxy_handler_found [where get_throws = never_throws, OF found sample_url_accepted]
  show ?thesis
    by (simp add: run_Cons run_Nil start on_response_fields res_write_def on_error_def
        partial_content_def)
qed

lemma step_destroyed:
  assumes "proxyReq x = Some r" and "destroyed r"
  shows "\<exists>r'. proxyReq (step x e) = Some r' \<and> destroyed r' \<and> bytesRead r' = bytesRead r"
  using assms by (cases e) (simp_all add: on_close_def)

lemma run_destroyed:
  "proxyReq x = Some r \<Longrightarrow> destroyed r \<Longrightarrow>
   \<exists>r'. proxyReq (run x events) = Some r' \<and> destroyed r' \<and> bytesRead r' = bytesRead r"
proof (induction events arbitrary: x r)
  case Nil
  then show ?case by (simp add: run_Nil)
next
  case (Cons e events)
  from step_destroyed [OF Cons.prems, of e]
  obtain r' where r': "proxyReq (step x e) = Some r'" "destroyed r'" "bytesRead r' = bytesRead r"
    by blast
  from Cons.IH [OF r'(1,2)] r'(3) show ?case by (simp add: run_Cons)
qed

text \<open>
  Claim C9. When the client's connection closes while the outbound request exists, the
  close callback destroys that request at once, and from then on, whatever events follow,
  the request stays destroyed and no further byte of the upstream's body is read.
\<close>

theorem close_destroys_upstream:
  assumes "proxyReq x = Some r"
  shows "map_option destroyed (proxyReq (run (step x Close) events)) = Some True \<and>
         map_option bytesRead (proxyReq (run (step x Close) events)) = Some (bytesRead r)"
proof -
  from assms have "proxyReq (step x Close) = Some (on_close r)" "destroyed (on_close r)"
    "bytesRead (on_close r) = bytesRead r"
    by (simp_all add: on_close_def)
  with run_destroyed [of "step x Close" "on_close r" events] show ?thesis by auto
qed

text \<open>
  Claim C9, an instance: three bytes were read before the close; the chunk and the end
  that arrive afterwards are not read.
\<close>

theorem close_destroys_upstream_witness:
  "map_option bytesRead (proxyReq (run (proxy_handler never_throws old_registry sample_request)
      [Response partial_content, Data ''abc''])) = Some 3 \<and>
   map_option destroyed (proxyReq (run (step (run (proxy_handler never_throws old_registry sample_request)
      [Response partial_content, Data ''abc'']) Close) [Data ''defg'', End])) = Some True \<and>
   map_option bytesRead (proxyReq (run (step (run (proxy_handler never_throws old_registry sample_request)
      [Response partial_content, Data ''abc'']) Close) [Data ''defg'', End])) = Some 3"
proof -
  have found: "resolve old_registry (params_streamId sample_request) = Some ''https://u/old''"
    by (simp add: sample_request_def old_registry_resolve)
  note start = proxy_handler_found [where get_throws = never_throws, OF found sample_url_accepted]
  have inflight: "proxyReq (run (proxy_handler never_throws old_registry sample_request)
      [Response partial_content, Data ''abc'']) =
      Some \<lparr>module = https, target = ''https://u/old'',
         options_headers = [(''User-Agent'', user_agent), (''Range'', ''bytes=100-199'')],
         destroyed = False, bytesRead = 3\<rparr>"
    by (simp add: run_Cons run_Nil start on_response_fields res_write_def startsWith_def
        sample_request_fields)
  from close_destroys_upstream [OF inflight, of "[Data ''defg'', End]"] inflight
  show ?thesis by simp
qed

end
